theory Spec2Isabelle
  imports Complex_Main "HOL-Library.Char_ord" "HOL-Library.List_Lexorder"
begin

section \<open>Configuration and its validation\<close>

text \<open>
  The configuration file is a JSON object. A window is one entry of
  \<open>windows_and_limits\<close>; its \<open>gas_limits\<close> dictionary is kept as an association
  list (JSON keys are unique). Numbers that the source only compares and divides are
  rationals here. \<open>yellow_warning_percent\<close> is an integer; \<open>safe_rounding_factor\<close>
  keeps the JSON distinction between an integer and a float, which the validation tests
  with \<open>isinstance\<close>.
\<close>

type_synonym gas = string

record window =
  label :: string
  mins :: int
  gas_limits :: "(gas \<times> rat) list"

datatype json_number = JInt int | JFloat rat

record config =
  WINDOWS_AND_LIMITS :: "window list"
  SUPPORTED_GASES :: "gas list"
  YELLOW_WARNING_PERCENT :: int
  SAFE_ROUNDING_FACTOR :: json_number

text \<open>
  The messages of the source are formatted strings; an issue keeps the values each
  message is formatted from.
\<close>

datatype issue =
    MismatchedGasLimits "window list"
  | UnsupportedGases "gas list" "gas list"
  | LimitsOutOfRange gas "rat list" rat rat
  | BadYellowWarningPercent int
  | BadSafeRoundingFactor json_number

text \<open>
  The exceptions the modelled code can raise. An \<open>AssertionError\<close> carries the issues
  its message lists (none for the sanity check of the window loop).
\<close>

datatype error = KeyError | IndexError | ValueError | TypeError | AssertionError "issue list"

text \<open>\<open>SENSOR_RANGE_PPM\<close>: gas, minimum and maximum of the sensor's range.\<close>

definition SENSOR_RANGE_PPM :: "(gas \<times> rat \<times> rat) list" where
  "SENSOR_RANGE_PPM =
     [(''carbon_monoxide'', 1, 1000), (''nitrogen_dioxide'', 1 / 20, 10)]"

text \<open>\<open>d[k]\<close> on a dictionary raises KeyError on a missing key.\<close>

definition getitem :: "('k \<times> 'v) list \<Rightarrow> 'k \<Rightarrow> error + 'v" where
  "getitem d k = (case map_of d k of None \<Rightarrow> Inl KeyError | Some v \<Rightarrow> Inr v)"

definition keys :: "('k \<times> 'v) list \<Rightarrow> 'k set" where
  "keys d = set (map fst d)"

text \<open>
  \<open>[window['gas_limits'][gas] for window in windows]\<close>: the first missing key
  raises.
\<close>

fun limits_of :: "window list \<Rightarrow> gas \<Rightarrow> error + rat list" where
  "limits_of [] g = Inr []"
| "limits_of (w # ws) g =
     (case getitem (gas_limits w) g of
        Inl e \<Rightarrow> Inl e
      | Inr l \<Rightarrow> (case limits_of ws g of Inl e \<Rightarrow> Inl e | Inr ls \<Rightarrow> Inr (l # ls)))"

text \<open>
  Python's \<open>min\<close> and \<open>max\<close> of a list raise ValueError on the empty list.
\<close>

fun py_min :: "'a::linorder list \<Rightarrow> error + 'a" where
  "py_min [] = Inl ValueError"
| "py_min (x # xs) = Inr (fold min xs x)"

fun py_max :: "'a::linorder list \<Rightarrow> error + 'a" where
  "py_max [] = Inl ValueError"
| "py_max (x # xs) = Inr (fold max xs x)"

text \<open>
  The loop over the supported gases (source lines 77-84), threading the list of issues
  found so far. An exception leaves the loop and the function.
\<close>

fun check_sensor_ranges :: "window list \<Rightarrow> gas list \<Rightarrow> issue list \<Rightarrow> error + issue list" where
  "check_sensor_ranges ws [] issues = Inr issues"
| "check_sensor_ranges ws (g # gs) issues =
     (case limits_of ws g of
        Inl e \<Rightarrow> Inl e
      | Inr limits \<Rightarrow>
          (case py_min limits of
             Inl e \<Rightarrow> Inl e
           | Inr lo \<Rightarrow>
               (case getitem SENSOR_RANGE_PPM g of
                  Inl e \<Rightarrow> Inl e
                | Inr (rmin, rmax) \<Rightarrow>
                    (case py_max limits of
                       Inl e \<Rightarrow> Inl e
                     | Inr hi \<Rightarrow>
                         if lo < rmin \<or> hi > rmax
                         then check_sensor_ranges ws gs
                                (issues @ [LimitsOutOfRange g limits rmin rmax])
                         else check_sensor_ranges ws gs issues))))"

text \<open>
  \<open>_validate_config\<close> (source lines 50-104). It returns nothing; an invalid
  configuration fails the final assertion, whose message lists the issues.
\<close>

definition validate_config :: "config \<Rightarrow> error + unit" where
  "validate_config c =
     (let ws = WINDOWS_AND_LIMITS c;
          mismatched_configs = filter (\<lambda>w. keys (gas_limits w) \<noteq> keys (gas_limits (hd ws))) ws;
          issues1 = (if mismatched_configs \<noteq> []
                     then [MismatchedGasLimits (hd ws # mismatched_configs)] else [])
      in case ws of
           [] \<Rightarrow> Inl IndexError
         | w0 # _ \<Rightarrow>
             (let issues2 = issues1 @
                    (if \<not> set (SUPPORTED_GASES c) \<subseteq> keys (gas_limits w0)
                     then [UnsupportedGases (SUPPORTED_GASES c) (map fst (gas_limits w0))]
                     else [])
              in case check_sensor_ranges ws (SUPPORTED_GASES c) issues2 of
                   Inl e \<Rightarrow> Inl e
                 | Inr issues3 \<Rightarrow>
                     (let issues4 = issues3 @
                            (if \<not> (YELLOW_WARNING_PERCENT c > 0 \<and> YELLOW_WARNING_PERCENT c < 100)
                             then [BadYellowWarningPercent (YELLOW_WARNING_PERCENT c)] else []);
                          issues5 = issues4 @
                            (case SAFE_ROUNDING_FACTOR c of
                               JInt n \<Rightarrow> if \<not> n \<ge> 0 then [BadSafeRoundingFactor (JInt n)] else []
                             | JFloat x \<Rightarrow> [BadSafeRoundingFactor (JFloat x)])
                      in if issues5 = [] then Inr () else Inl (AssertionError issues5))))"

section \<open>Sensor log, resampling and backfill\<close>

text \<open>
  A row of the sensor log. The index \<open>timestamp_mins\<close> is a minute-floored instant
  (the source stores every reading against its minute), counted here in whole minutes.
  The tick time is an arbitrary \<open>pandas.Timestamp\<close>, an integer number of
  nanoseconds. \<open>cells\<close> holds every other column (the gases and the sensor fields that
  are only carried through).
\<close>

record reading =
  timestamp_mins :: int
  firefighter_id :: "string option"
  cells :: "string \<rightharpoonup> rat"

definition ns_per_min :: int where
  "ns_per_min = 60000000000"

text \<open>\<open>Timestamp.floor(freq='min')\<close>, returned in whole minutes.\<close>

definition floor_min :: "int \<Rightarrow> int" where
  "floor_min t = t div ns_per_min"

text \<open>
  A label slice \<open>df[a:b]\<close> or \<open>df.loc[a:b]\<close> of a time-indexed frame keeps the rows
  whose index lies between the two instants, both included.
\<close>

definition slice_rows :: "int \<Rightarrow> int \<Rightarrow> reading list \<Rightarrow> reading list" where
  "slice_rows a b rows =
     filter (\<lambda>r. a \<le> timestamp_mins r * ns_per_min \<and> timestamp_mins r * ns_per_min \<le> b) rows"

text \<open>
  \<open>_get_block_of_sensor_readings\<close> (source lines 167-193): the rows of the sensor
  log between \<open>window_end - longest_window\<close> and the floored \<open>window_end\<close>, sorted by
  their index.
\<close>

definition get_block_of_sensor_readings :: "config \<Rightarrow> reading list \<Rightarrow> int \<Rightarrow> error + reading list" where
  "get_block_of_sensor_readings c sensor_log window_end =
     (let window_end = floor_min window_end * ns_per_min
      in case py_max (map mins (WINDOWS_AND_LIMITS c)) of
           Inl e \<Rightarrow> Inl e
         | Inr longest_window \<Rightarrow>
             (let window_start = window_end - longest_window * ns_per_min
              in Inr (sort_key timestamp_mins (slice_rows window_start window_end sensor_log))))"

text \<open>
  The groups of \<open>groupby(FIREFIGHTER_ID_COL)\<close>: the distinct identifiers in sorted
  order (rows without an identifier belong to no group), and the rows of one group in
  the order of the frame.
\<close>

definition group_ids :: "reading list \<Rightarrow> string list" where
  "group_ids rows = sort (remdups (List.map_filter firefighter_id rows))"

definition group_rows :: "string \<Rightarrow> reading list \<Rightarrow> reading list" where
  "group_rows e rows = filter (\<lambda>r. firefighter_id r = Some e) rows"

text \<open>
  \<open>resample('1min').backfill(limit=3)\<close> on one group, whose rows are sorted by
  time. The new index runs over every minute from the group's first to its last row;
  the group's frame is reindexed on it with \<open>method='bfill'\<close>, so a minute takes the
  whole row of the next reading at or after it, when that reading is at most \<open>limit\<close>
  minutes later, and is an all-NaN row otherwise (the identifier column included).
  Reindexing raises ValueError when the group's index has a duplicate.
\<close>

definition nan_row :: "int \<Rightarrow> reading" where
  "nan_row m = \<lparr>timestamp_mins = m, firefighter_id = None, cells = Map.empty\<rparr>"

definition backfill_at :: "int \<Rightarrow> reading list \<Rightarrow> int \<Rightarrow> reading" where
  "backfill_at limit obs m =
     (case find (\<lambda>r. m \<le> timestamp_mins r) obs of
        None \<Rightarrow> nan_row m
      | Some r \<Rightarrow> if timestamp_mins r - m \<le> limit then r\<lparr>timestamp_mins := m\<rparr> else nan_row m)"

definition resample_backfill :: "int \<Rightarrow> reading list \<Rightarrow> error + reading list" where
  "resample_backfill limit obs =
     (if obs = [] then Inr []
      else if \<not> distinct (map timestamp_mins obs) then Inl ValueError
      else Inr (map (backfill_at limit obs) [timestamp_mins (hd obs) .. timestamp_mins (last obs)]))"

text \<open>The resampled groups, one after the other.\<close>

fun resample_groups :: "string list \<Rightarrow> reading list \<Rightarrow> error + reading list" where
  "resample_groups [] rows = Inr []"
| "resample_groups (e # es) rows =
     (case resample_backfill 3 (group_rows e rows) of
        Inl err \<Rightarrow> Inl err
      | Inr xs \<Rightarrow> (case resample_groups es rows of Inl err \<Rightarrow> Inl err | Inr ys \<Rightarrow> Inr (xs @ ys)))"

definition clean :: "reading list \<Rightarrow> error + reading list" where
  "clean longest_window_df =
     (let sorted_df = sort_key timestamp_mins longest_window_df
      in resample_groups (group_ids sorted_df) sorted_df)"

section \<open>Time-weighted averages and gauges\<close>

text \<open>
  \<open>numpy.round\<close>: halves go to the even neighbour; with \<open>decimals\<close> the value is
  scaled by the power of ten, rounded and scaled back. The arithmetic of the source is
  binary floating point; it is exact rational arithmetic here.
\<close>

definition rint :: "rat \<Rightarrow> int" where
  "rint x =
     (let f = \<lfloor>x\<rfloor>; d = x - of_int f
      in if d < 1 / 2 then f else if d > 1 / 2 then f + 1 else if even f then f else f + 1)"

definition np_round :: "rat \<Rightarrow> int \<Rightarrow> rat" where
  "np_round x decimals =
     (if decimals \<ge> 0 then of_int (rint (x * 10 ^ nat decimals)) / 10 ^ nat decimals
      else of_int (rint (x / 10 ^ nat (- decimals))) * 10 ^ nat (- decimals))"

text \<open>\<open>groupby(...).sum()\<close> of one column of one group: cells without a value are skipped.\<close>

definition sum_cells :: "gas \<Rightarrow> reading list \<Rightarrow> rat" where
  "sum_cells g rows = sum_list (List.map_filter (\<lambda>r. cells r g) rows)"

text \<open>
  One row of a window's result frame: the index pair, and one TWA and one gauge per
  supported gas, in column order.
\<close>

record window_row =
  wr_firefighter_id :: string
  wr_timestamp_mins :: int
  wr_twa :: "(gas \<times> rat) list"
  wr_gauge :: "(gas \<times> int) list"

record window_frame =
  wf_label :: string
  wf_rows :: "window_row list"

text \<open>
  The gauge of one TWA (source line 299):
  \<open>(twa * 100 / limit).round(0).astype(int)\<close>. A zero limit gives a non-finite
  quotient, which \<open>astype(int)\<close> refuses with ValueError.
\<close>

definition gauge :: "rat \<Rightarrow> rat \<Rightarrow> error + int" where
  "gauge twa limit = (if limit = 0 then Inl ValueError else Inr (rint (twa * 100 / limit)))"

fun gauge_row :: "(gas \<times> rat) list \<Rightarrow> rat list \<Rightarrow> error + (gas \<times> int) list" where
  "gauge_row ((g, t) # ts) (l # ls) =
     (case gauge t l of
        Inl e \<Rightarrow> Inl e
      | Inr p \<Rightarrow> (case gauge_row ts ls of Inl e \<Rightarrow> Inl e | Inr ps \<Rightarrow> Inr ((g, p) # ps)))"
| "gauge_row _ _ = Inr []"

text \<open>\<open>[float(window['gas_limits'][gas]) for gas in columns]\<close>.\<close>

fun limits_in_column_order :: "window \<Rightarrow> gas list \<Rightarrow> error + rat list" where
  "limits_in_column_order w [] = Inr []"
| "limits_in_column_order w (g # gs) =
     (case getitem (gas_limits w) g of
        Inl e \<Rightarrow> Inl e
      | Inr l \<Rightarrow> (case limits_in_column_order w gs of Inl e \<Rightarrow> Inl e | Inr ls \<Rightarrow> Inr (l # ls)))"

text \<open>
  The TWA row of one group (source lines 286-294), before the gauges. The divisor is
  the window's length; it is at least 1 whenever the window's slice holds a row (lemma
  \<open>slice_nonempty_mins\<close>), which is the only case in which the row is computed.
\<close>

definition twa_row :: "config \<Rightarrow> window \<Rightarrow> int \<Rightarrow> reading list \<Rightarrow> string \<Rightarrow> (gas \<times> rat) list" where
  "twa_row c w decimals window_df e =
     map (\<lambda>g. (g, np_round (sum_cells g (group_rows e window_df) / of_int (mins w)) decimals))
       (SUPPORTED_GASES c)"

fun window_rows :: "config \<Rightarrow> window \<Rightarrow> int \<Rightarrow> int \<Rightarrow> rat list \<Rightarrow> reading list \<Rightarrow> string list
    \<Rightarrow> error + window_row list" where
  "window_rows c w decimals common_key limits window_df [] = Inr []"
| "window_rows c w decimals common_key limits window_df (e # es) =
     (let twa = twa_row c w decimals window_df e
      in case gauge_row twa limits of
           Inl err \<Rightarrow> Inl err
         | Inr gs \<Rightarrow>
             (case window_rows c w decimals common_key limits window_df es of
                Inl err \<Rightarrow> Inl err
              | Inr rows \<Rightarrow>
                  Inr (\<lparr>wr_firefighter_id = e, wr_timestamp_mins = common_key,
                        wr_twa = twa, wr_gauge = gs\<rparr> # rows)))"

section \<open>Status LED\<close>

text \<open>
  The analytics status is one of the three LED colours; the source encodes them as the
  integers 1, 2 and 3. A cell of a dataframe that holds no value (NaN, null) is
  \<open>None\<close> throughout this development.
\<close>

datatype status = GREEN | YELLOW | RED

text \<open>
  Bin edges of \<open>pandas.cut\<close>: finite numbers and \<open>np.Inf\<close> (the source's
  \<open>RED_RANGE_END\<close>).
\<close>

datatype edge = Fin int | PInf

definition GREEN_RANGE_START :: int where
  "GREEN_RANGE_START = 0"

definition RED_RANGE_START :: int where
  "RED_RANGE_START = 99"

definition RED_RANGE_END :: edge where
  "RED_RANGE_END = PInf"

fun edge_less_val :: "edge \<Rightarrow> int \<Rightarrow> bool" where
  "edge_less_val (Fin b) x = (b < x)"
| "edge_less_val PInf x = False"

fun edge_le :: "edge \<Rightarrow> edge \<Rightarrow> bool" where
  "edge_le (Fin a) (Fin b) = (a \<le> b)"
| "edge_le (Fin a) PInf = True"
| "edge_le PInf (Fin b) = False"
| "edge_le PInf PInf = True"

fun monotonic_increasing :: "edge list \<Rightarrow> bool" where
  "monotonic_increasing [] = True"
| "monotonic_increasing [a] = True"
| "monotonic_increasing (a # b # bs) = (edge_le a b \<and> monotonic_increasing (b # bs))"

text \<open>
  \<open>bins.searchsorted(x, side='left')\<close>: the number of edges strictly below \<open>x\<close>
  (the edges are increasing when it is called).
\<close>

definition searchsorted_left :: "edge list \<Rightarrow> int \<Rightarrow> nat" where
  "searchsorted_left bins x = length (takeWhile (\<lambda>b. edge_less_val b x) bins)"

text \<open>
  \<open>pandas.cut(xs, bins, include_lowest=True, labels=labels)\<close> with the defaults
  \<open>right=True\<close> and \<open>duplicates='raise'\<close>. Decreasing edges and repeated edges
  raise ValueError, whatever the values. A value in the right-closed bin
  \<open>(bins[i-1], bins[i]]\<close> gets \<open>labels[i-1]\<close>, the lowest edge itself belongs to the
  first bin, and NaN or a value outside every bin gets no label.
\<close>

definition cut_value :: "edge list \<Rightarrow> 'l list \<Rightarrow> int option \<Rightarrow> 'l option" where
  "cut_value bins labels x =
     (case x of
        None \<Rightarrow> None
      | Some v \<Rightarrow>
          (let ids = (if Fin v = hd bins then 1 else searchsorted_left bins v)
           in if ids = length bins \<or> ids = 0 then None else Some (labels ! (ids - 1))))"

definition cut :: "int option list \<Rightarrow> edge list \<Rightarrow> 'l list \<Rightarrow> error + 'l option list" where
  "cut xs bins labels =
     (if \<not> monotonic_increasing bins then Inl ValueError
      else if \<not> distinct bins \<and> length bins \<noteq> 2 then Inl ValueError
      else if length labels + 1 \<noteq> length bins then Inl ValueError
      else Inr (map (cut_value bins labels) xs))"

text \<open>
  \<open>DataFrame.max(axis='columns')\<close> on one row: the largest of the cells that hold a
  value, NaN when none does.
\<close>

fun row_max :: "int option list \<Rightarrow> int option" where
  "row_max [] = None"
| "row_max (None # cs) = row_max cs"
| "row_max (Some g # cs) = (case row_max cs of None \<Rightarrow> Some g | Some m \<Rightarrow> Some (max g m))"

text \<open>
  The status column (source lines 319-323) from the rows' gauge cells:
  \<open>gauge_rows\<close> holds, for every output row, its gauge cells over every gas and
  window.
\<close>

definition status_column :: "int \<Rightarrow> int option list list \<Rightarrow> error + status option list" where
  "status_column yellow_warning_percent gauge_rows =
     (let yellow_range_start = yellow_warning_percent - 1
      in cut (map row_max gauge_rows)
             [Fin GREEN_RANGE_START, Fin yellow_range_start, Fin RED_RANGE_START, RED_RANGE_END]
             [GREEN, YELLOW, RED])"

section \<open>One tick of analytics\<close>

text \<open>
  One window of the loop (source lines 257-306) on the resampled frame: \<open>None\<close> when
  the window's slice is empty (\<open>continue\<close>), the window's frame otherwise. The sanity
  check compares the largest group size with the window's minutes; with no group at all
  the largest size is NaN and the comparison is false.
\<close>

definition window_calc :: "config \<Rightarrow> reading list \<Rightarrow> int \<Rightarrow> int \<Rightarrow> window \<Rightarrow> error + window_frame option" where
  "window_calc c cleaned current_timestamp common_key w =
     (let window_df = slice_rows (current_timestamp - mins w * ns_per_min + ns_per_min)
                        current_timestamp cleaned
      in if window_df = [] then Inr None
         else
           (let ids = group_ids window_df;
                sizes = map (\<lambda>e. int (length (group_rows e window_df))) ids
            in case py_max sizes of
                 Inl _ \<Rightarrow> Inl (AssertionError [])
               | Inr largest \<Rightarrow>
                   if \<not> largest \<le> mins w then Inl (AssertionError [])
                   else
                     (case SAFE_ROUNDING_FACTOR c of
                        JFloat _ \<Rightarrow> Inl TypeError
                      | JInt decimals \<Rightarrow>
                          (case limits_in_column_order w (SUPPORTED_GASES c) of
                             Inl e \<Rightarrow> Inl e
                           | Inr limits \<Rightarrow>
                               (case window_rows c w decimals common_key limits window_df ids of
                                  Inl e \<Rightarrow> Inl e
                                | Inr rows \<Rightarrow> Inr (Some \<lparr>wf_label = label w, wf_rows = rows\<rparr>))))))"

fun calculations_for_all_windows :: "config \<Rightarrow> reading list \<Rightarrow> int \<Rightarrow> int \<Rightarrow> window list
    \<Rightarrow> error + window_frame list" where
  "calculations_for_all_windows c cleaned t common_key [] = Inr []"
| "calculations_for_all_windows c cleaned t common_key (w # ws) =
     (case window_calc c cleaned t common_key w of
        Inl e \<Rightarrow> Inl e
      | Inr res \<Rightarrow>
          (case calculations_for_all_windows c cleaned t common_key ws of
             Inl e \<Rightarrow> Inl e
           | Inr frames \<Rightarrow> Inr (case res of None \<Rightarrow> frames | Some f \<Rightarrow> f # frames)))"

text \<open>
  An output row: its index pair, the carried-through sensor cells, one TWA cell and one
  gauge cell per window frame and gas (a column is named by its gas and the window's
  label), and the status. Columns are kept apart by kind, so the selection of the gauge
  columns by \<open>filter(like='gauge')\<close> is the field \<open>ar_gauge\<close>; the final reordering
  of the columns by name does not appear.
\<close>

record analytics_record =
  ar_firefighter_id :: "string option"
  ar_timestamp_mins :: int
  ar_cells :: "string \<rightharpoonup> rat"
  ar_twa :: "((gas \<times> string) \<times> rat option) list"
  ar_gauge :: "((gas \<times> string) \<times> int option) list"
  analytics_status_LED :: "status option"

definition frame_row :: "window_frame \<Rightarrow> string option \<times> int \<Rightarrow> window_row option" where
  "frame_row f k = find (\<lambda>r. (Some (wr_firefighter_id r), wr_timestamp_mins r) = k) (wf_rows f)"

definition twa_cells :: "config \<Rightarrow> string option \<times> int \<Rightarrow> window_frame \<Rightarrow> ((gas \<times> string) \<times> rat option) list" where
  "twa_cells c k f =
     (case frame_row f k of
        None \<Rightarrow> map (\<lambda>g. ((g, wf_label f), None)) (SUPPORTED_GASES c)
      | Some r \<Rightarrow> map (\<lambda>(g, v). ((g, wf_label f), Some v)) (wr_twa r))"

definition gauge_cells :: "config \<Rightarrow> string option \<times> int \<Rightarrow> window_frame \<Rightarrow> ((gas \<times> string) \<times> int option) list" where
  "gauge_cells c k f =
     (case frame_row f k of
        None \<Rightarrow> map (\<lambda>g. ((g, wf_label f), None)) (SUPPORTED_GASES c)
      | Some r \<Rightarrow> map (\<lambda>(g, v). ((g, wf_label f), Some v)) (wr_gauge r))"

definition reading_key :: "reading \<Rightarrow> string option \<times> int" where
  "reading_key r = (firefighter_id r, timestamp_mins r)"

definition window_row_key :: "window_row \<Rightarrow> string option \<times> int" where
  "window_row_key r = (Some (wr_firefighter_id r), wr_timestamp_mins r)"

text \<open>
  \<open>pd.concat(latest_sensor_readings + calculations_for_all_windows, axis='columns')\<close>:
  an outer join on the index pair. Nothing to concatenate raises ValueError, and so
  does a frame with a repeated index pair that has to be aligned with other frames.
  A row missing from a frame leaves that frame's cells empty; without the latest
  readings the sensor columns are set to null (source lines 312-315).
\<close>

definition concat_columns :: "config \<Rightarrow> reading list \<Rightarrow> window_frame list \<Rightarrow> error + analytics_record list" where
  "concat_columns c latest frames =
     (let latest_keys = map reading_key latest;
          frame_keys = concat (map (\<lambda>f. map window_row_key (wf_rows f)) frames)
      in if latest = [] \<and> frames = [] then Inl ValueError
         else if \<not> distinct latest_keys \<and> frames \<noteq> [] then Inl ValueError
         else
           Inr (map (\<lambda>k. \<lparr>ar_firefighter_id = fst k, ar_timestamp_mins = snd k,
                           ar_cells = (case find (\<lambda>r. reading_key r = k) latest of
                                         None \<Rightarrow> Map.empty | Some r \<Rightarrow> cells r),
                           ar_twa = concat (map (twa_cells c k) frames),
                           ar_gauge = concat (map (gauge_cells c k) frames),
                           analytics_status_LED = None\<rparr>)
                  (if frames = [] then latest_keys else remdups (latest_keys @ frame_keys))))"

definition add_status :: "config \<Rightarrow> analytics_record list \<Rightarrow> error + analytics_record list" where
  "add_status c everything =
     (case status_column (YELLOW_WARNING_PERCENT c) (map (\<lambda>r. map snd (ar_gauge r)) everything) of
        Inl e \<Rightarrow> Inl e
      | Inr ss \<Rightarrow> Inr (map (\<lambda>(r, s). r\<lparr>analytics_status_LED := s\<rparr>) (zip everything ss)))"

text \<open>
  \<open>_calculate_TWA_and_gauge_for_all_firefighters\<close> (source lines 199-328).
  \<open>current_timestamp\<close> is the tick as the caller gave it, in nanoseconds.
\<close>

definition calculate_TWA_and_gauge_for_all_firefighters ::
    "config \<Rightarrow> reading list \<Rightarrow> int \<Rightarrow> error + analytics_record list" where
  "calculate_TWA_and_gauge_for_all_firefighters c sensor_log_chunk_df current_timestamp =
     (let windows_in_descending_order = sort_key (\<lambda>w. - mins w) (WINDOWS_AND_LIMITS c)
      in case windows_in_descending_order of
           [] \<Rightarrow> Inl IndexError
         | w0 # _ \<Rightarrow>
             (let longest_window_mins = mins w0;
                  longest_window_df =
                    slice_rows (current_timestamp - longest_window_mins * ns_per_min + ns_per_min)
                      current_timestamp sensor_log_chunk_df
              in case clean longest_window_df of
                   Inl e \<Rightarrow> Inl e
                 | Inr longest_window_cleaned_df \<Rightarrow>
                     (let common_key = floor_min (current_timestamp - ns_per_min);
                          latest_sensor_readings =
                            filter (\<lambda>r. timestamp_mins r = common_key) longest_window_cleaned_df
                      in case calculations_for_all_windows c longest_window_cleaned_df
                                current_timestamp common_key windows_in_descending_order of
                           Inl e \<Rightarrow> Inl e
                         | Inr frames \<Rightarrow>
                             (case concat_columns c latest_sensor_readings frames of
                                Inl e \<Rightarrow> Inl e
                              | Inr everything_for_1_min_df \<Rightarrow>
                                  add_status c everything_for_1_min_df))))"

text \<open>
  \<open>run_analytics\<close> (source lines 335-355) with the sensor log and the analytics table
  as explicit state: the result is the returned value (\<open>None\<close> for the bare
  \<open>return\<close>) and the analytics table afterwards.
\<close>

definition run_analytics ::
    "config \<Rightarrow> reading list \<Rightarrow> analytics_record list \<Rightarrow> int \<Rightarrow> bool
     \<Rightarrow> (error + analytics_record list option) \<times> analytics_record list" where
  "run_analytics c sensor_log analytics_table time commit =
     (case get_block_of_sensor_readings c sensor_log time of
        Inl e \<Rightarrow> (Inl e, analytics_table)
      | Inr sensor_log_df \<Rightarrow>
          if sensor_log_df = [] then (Inr None, analytics_table)
          else
            (case calculate_TWA_and_gauge_for_all_firefighters c sensor_log_df time of
               Inl e \<Rightarrow> (Inl e, analytics_table)
             | Inr analytics_df \<Rightarrow>
                 (Inr (Some analytics_df),
                  if commit then analytics_table @ analytics_df else analytics_table)))"

text \<open>
  The default of the \<open>time\<close> parameter. Python evaluates the default expression
  \<open>pd.Timestamp.now()\<close> once, when the \<open>def\<close> statement of the class body runs, and
  stores the value in the function object; a call that omits the argument receives the
  stored value. \<open>define_run_analytics\<close> is the \<open>def\<close> statement, run at clock
  reading \<open>now\<close>; \<open>call_run_analytics\<close> is a call made at clock reading \<open>now\<close>,
  with \<open>time = None\<close> when the argument is omitted.
\<close>

record run_analytics_function =
  time_default :: int

definition define_run_analytics :: "int \<Rightarrow> run_analytics_function" where
  "define_run_analytics now = \<lparr>time_default = now\<rparr>"

definition bound_time :: "run_analytics_function \<Rightarrow> int \<Rightarrow> int option \<Rightarrow> int" where
  "bound_time f now time = (case time of None \<Rightarrow> time_default f | Some t \<Rightarrow> t)"

definition call_run_analytics ::
    "run_analytics_function \<Rightarrow> int \<Rightarrow> config \<Rightarrow> reading list \<Rightarrow> analytics_record list
     \<Rightarrow> int option \<Rightarrow> bool \<Rightarrow> (error + analytics_record list option) \<times> analytics_record list" where
  "call_run_analytics f now c sensor_log analytics_table time commit =
     run_analytics c sensor_log analytics_table (bound_time f now time) commit"

section \<open>Notions used in the statements\<close>



text \<open>
  The resampled rows of one firefighter, as \<open>resample_backfill\<close> returns them for a
  group without a repeated minute.
\<close>

definition group_grid :: "reading list \<Rightarrow> string \<Rightarrow> reading list" where
  "group_grid rows e =
     map (backfill_at 3 (group_rows e rows))
       [timestamp_mins (hd (group_rows e rows)) .. timestamp_mins (last (group_rows e rows))]"



text \<open>
  The minutes of the slice of a window of \<open>w\<close> minutes at tick \<open>t\<close>, and the
  value of gas \<open>g\<close> in firefighter \<open>e\<close>'s slot of minute \<open>m\<close> of a frame: an
  empty slot or an empty cell contributes nothing to a sum.
\<close>

definition slice_minutes_of :: "int \<Rightarrow> int \<Rightarrow> int set" where
  "slice_minutes_of t w =
     {m. t - w * ns_per_min + ns_per_min \<le> m * ns_per_min \<and> m * ns_per_min \<le> t}"




section \<open>Example inputs\<close>

text \<open>
  A configuration with one ten-minute window for carbon monoxide (limit 100 ppm, yellow
  at 80 percent), and readings of that gas.
\<close>

definition example_window :: window where
  "example_window = \<lparr>label = ''10min'', mins = 10, gas_limits = [(''carbon_monoxide'', 100)]\<rparr>"

definition example_config :: config where
  "example_config =
     \<lparr>WINDOWS_AND_LIMITS = [example_window],
      SUPPORTED_GASES = [''carbon_monoxide''],
      YELLOW_WARNING_PERCENT = 80,
      SAFE_ROUNDING_FACTOR = JInt 3\<rparr>"

definition co_reading :: "int \<Rightarrow> string \<Rightarrow> rat \<Rightarrow> reading" where
  "co_reading m e v =
     \<lparr>timestamp_mins = m, firefighter_id = Some e, cells = [''carbon_monoxide'' \<mapsto> v]\<rparr>"

text \<open>
  Nine minutes at 50 ppm and a last minute at 1000 ppm, for one firefighter.
\<close>

definition jump_readings :: "reading list" where
  "jump_readings =
     map (\<lambda>m. co_reading m ''ff1'' 50) [1, 2, 3, 4, 5, 6, 7, 8, 9] @ [co_reading 10 ''ff1'' 1000]"

text \<open>
  Two readings only in a ten-minute window, and the same with a second firefighter whose
  only reading is older than the window.
\<close>

definition sparse_readings :: "reading list" where
  "sparse_readings = [co_reading 8 ''ff1'' 600, co_reading 9 ''ff1'' 500]"

definition two_firefighters_frame :: "reading list" where
  "two_firefighters_frame = sparse_readings @ [co_reading (- 5) ''ff2'' 70]"

text \<open>
  A frame that repeats minute 10 of the same firefighter; no resampled frame is like it.
\<close>

definition repeated_minute_frame :: "reading list" where
  "repeated_minute_frame = jump_readings @ [co_reading 10 ''ff1'' 1]"

text \<open>
  A configuration whose supported gas has no limit in its window, and whose yellow
  threshold is out of range as well.
\<close>

definition uncovered_gas_config :: config where
  "uncovered_gas_config =
     \<lparr>WINDOWS_AND_LIMITS = [example_window],
      SUPPORTED_GASES = [''nitrogen_dioxide''],
      YELLOW_WARNING_PERCENT = 0,
      SAFE_ROUNDING_FACTOR = JInt 3\<rparr>"

section \<open>Evaluation of the model\<close>

lemmas model_defs =
  calculate_TWA_and_gauge_for_all_firefighters_def clean_def group_ids_def group_rows_def
  resample_backfill_def backfill_at_def nan_row_def slice_rows_def ns_per_min_def floor_min_def
  window_calc_def twa_row_def sum_cells_def np_round_def rint_def gauge_def getitem_def
  concat_columns_def add_status_def status_column_def cut_def cut_value_def searchsorted_left_def
  GREEN_RANGE_START_def RED_RANGE_START_def RED_RANGE_END_def frame_row_def twa_cells_def
  gauge_cells_def reading_key_def window_row_key_def upto_rec1
  example_config_def example_window_def co_reading_def

lemmas validate_defs = validate_config_def keys_def getitem_def SENSOR_RANGE_PPM_def

section \<open>Properties of the status LED\<close>
















section \<open>Validation of the configuration\<close>











text \<open>
  Claim C4 at a configuration the code does not handle as the claim says. The supported
  gas has no limit in the window and the yellow threshold is 0: the second check records
  its issue, the third check raises KeyError on the missing limit, and the checks of the
  yellow threshold and of the rounding factor never run, so no aggregated diagnostic is
  produced.
\<close>

theorem validate_stops_at_uncovered_gas:
  "validate_config uncovered_gas_config = Inl KeyError"
  by (simp add: uncovered_gas_config_def example_window_def validate_defs)

text \<open>
  With the gas covered, the same threshold is reported through the assertion.
\<close>

lemma validate_reports_yellow:
  "validate_config (uncovered_gas_config\<lparr>SUPPORTED_GASES := [''carbon_monoxide'']\<rparr>) =
     Inl (AssertionError [BadYellowWarningPercent 0])"
  by (simp add: uncovered_gas_config_def example_window_def validate_defs)

section \<open>Resampling and backfill\<close>

lemma find_first_at_or_after:
  assumes "sorted (map f xs)" and "find (\<lambda>r. m \<le> f r) xs = Some x"
  shows "x \<in> set xs \<and> m \<le> f x \<and> (\<forall>y \<in> set xs. m \<le> f y \<longrightarrow> f x \<le> f y)"
  using assms
proof (induction xs)
  case Nil
  then show ?case by simp
next
  case (Cons a xs)
  show ?case
  proof (cases "m \<le> f a")
    case True
    with Cons.prems show ?thesis by auto
  next
    case False
    with Cons.prems have "find (\<lambda>r. m \<le> f r) xs = Some x" "sorted (map f xs)" by simp_all
    with Cons.IH False show ?thesis by auto
  qed
qed

lemma find_at_or_after_exists:
  assumes "y \<in> set xs" and "m \<le> f y"
  shows "\<exists>x. find (\<lambda>r. m \<le> f r) xs = Some x"
  using assms by (cases "find (\<lambda>r. m \<le> f r) xs") (auto simp: find_None_iff)

lemma sorted_le_last:
  assumes "sorted (map f xs)" and "x \<in> set xs"
  shows "f x \<le> f (last xs)"
  using assms
proof (induction xs)
  case Nil
  then show ?case by simp
next
  case (Cons a xs)
  then show ?case by (cases "xs = []") auto
qed

lemma sorted_hd_le:
  assumes "sorted (map f xs)" and "x \<in> set xs"
  shows "f (hd xs) \<le> f x"
  using assms by (cases xs) auto

lemma backfill_at_next:
  assumes "sorted (map timestamp_mins obs)" and "distinct (map timestamp_mins obs)"
    and "x \<in> set obs" and "m \<le> timestamp_mins x"
    and "\<forall>y \<in> set obs. m \<le> timestamp_mins y \<longrightarrow> timestamp_mins x \<le> timestamp_mins y"
  shows "backfill_at limit obs m =
           (if timestamp_mins x - m \<le> limit then x\<lparr>timestamp_mins := m\<rparr> else nan_row m)"
proof -
  from find_at_or_after_exists [of x obs m timestamp_mins, OF assms(3,4)] obtain z where
    z: "find (\<lambda>r. m \<le> timestamp_mins r) obs = Some z" by blast
  from find_first_at_or_after [OF assms(1) z] have
    zz: "z \<in> set obs" "m \<le> timestamp_mins z"
        "\<forall>y \<in> set obs. m \<le> timestamp_mins y \<longrightarrow> timestamp_mins z \<le> timestamp_mins y"
    by auto
  with assms(3,4,5) have "timestamp_mins z = timestamp_mins x" by force
  with assms(2,3) zz(1) have "z = x"
    by (meson distinct_map inj_onD)
  with z show ?thesis by (simp add: backfill_at_def)
qed


text \<open>
  Claim C2, as the code has it. The resampled series of one firefighter (whose rows are
  sorted by time) has one row for every minute from the first to the last reading. The
  row of minute \<open>m\<close> is the whole row of the next reading \<open>x\<close> at or after \<open>m\<close>
  (the reading itself when there is one at \<open>m\<close>), when that reading is at most 3
  minutes later, and the all-empty row otherwise: a gap is filled backwards from the
  reading that ends it, over its last 3 minutes. \<open>clean\<close> resamples each
  firefighter's rows of the sorted frame in this way.
\<close>

theorem backfill_takes_next_reading:
  assumes "sorted (map timestamp_mins obs)" and "resample_backfill 3 obs = Inr grid"
    and "x \<in> set obs" and "timestamp_mins (hd obs) \<le> m" and "m \<le> timestamp_mins x"
    and "\<forall>y \<in> set obs. m \<le> timestamp_mins y \<longrightarrow> timestamp_mins x \<le> timestamp_mins y"
  shows "map timestamp_mins grid = [timestamp_mins (hd obs) .. timestamp_mins (last obs)] \<and>
         grid ! nat (m - timestamp_mins (hd obs)) =
           (if timestamp_mins x - m \<le> 3 then x\<lparr>timestamp_mins := m\<rparr> else nan_row m)"
proof -
  let ?a = "timestamp_mins (hd obs)" and ?b = "timestamp_mins (last obs)"
  from assms(3) have ne: "obs \<noteq> []" by auto
  with assms(2) have d: "distinct (map timestamp_mins obs)"
    and grid: "grid = map (backfill_at 3 obs) [?a .. ?b]"
    by (auto simp: resample_backfill_def split: if_splits)
  have ts: "timestamp_mins (backfill_at 3 obs k) = k" for k
    by (simp add: backfill_at_def nan_row_def split: option.splits)
  have "map timestamp_mins grid = map (\<lambda>k. k) [?a .. ?b]"
    unfolding grid by (simp add: ts comp_def)
  then have idx: "map timestamp_mins grid = [?a .. ?b]" by simp
  from sorted_le_last [OF assms(1,3)] assms(5) have mb: "m \<le> ?b" by simp
  with assms(4) have k: "nat (m - ?a) < length [?a .. ?b]" and v: "[?a .. ?b] ! nat (m - ?a) = m"
    by (simp_all add: nth_upto)
  have "grid ! nat (m - ?a) = backfill_at 3 obs m"
    unfolding grid using k v by simp
  also have "\<dots> = (if timestamp_mins x - m \<le> 3 then x\<lparr>timestamp_mins := m\<rparr> else nan_row m)"
    by (rule backfill_at_next [OF assms(1) d assms(3,5,6)])
  finally show ?thesis using idx by simp
qed


theorem backfill_takes_next_reading_witness:
  "sorted (map timestamp_mins [co_reading 1 ''ff1'' 10, co_reading 6 ''ff1'' 20]) \<and>
   resample_backfill 3 [co_reading 1 ''ff1'' 10, co_reading 6 ''ff1'' 20] =
     Inr [co_reading 1 ''ff1'' 10, nan_row 2, co_reading 3 ''ff1'' 20, co_reading 4 ''ff1'' 20,
          co_reading 5 ''ff1'' 20, co_reading 6 ''ff1'' 20] \<and>
   [co_reading 1 ''ff1'' 10, nan_row 2, co_reading 3 ''ff1'' 20, co_reading 4 ''ff1'' 20,
    co_reading 5 ''ff1'' 20, co_reading 6 ''ff1'' 20] ! nat (3 - 1) =
     (co_reading 6 ''ff1'' 20)\<lparr>timestamp_mins := 3\<rparr>"
proof -
  let ?obs = "[co_reading 1 ''ff1'' 10, co_reading 6 ''ff1'' 20]"
  let ?grid = "[co_reading 1 ''ff1'' 10, nan_row 2, co_reading 3 ''ff1'' 20,
                co_reading 4 ''ff1'' 20, co_reading 5 ''ff1'' 20, co_reading 6 ''ff1'' 20]"
  have s: "sorted (map timestamp_mins ?obs)" by (simp add: co_reading_def)
  have r: "resample_backfill 3 ?obs = Inr ?grid" by (simp add: model_defs)
  have x: "co_reading 6 ''ff1'' 20 \<in> set ?obs" by simp
  have a: "timestamp_mins (hd ?obs) \<le> 3" by (simp add: co_reading_def)
  have b: "3 \<le> timestamp_mins (co_reading 6 ''ff1'' 20)" by (simp add: co_reading_def)
  have c: "\<forall>y \<in> set ?obs. 3 \<le> timestamp_mins y \<longrightarrow>
             timestamp_mins (co_reading 6 ''ff1'' 20) \<le> timestamp_mins y"
    by (simp add: co_reading_def)
  from backfill_takes_next_reading [OF s r x a b c] s r show ?thesis
    by (simp add: co_reading_def)
qed

text \<open>
  Claim C2 as the specification words it fails. With readings at minutes 1 (10 ppm) and
  6 (20 ppm), the first missing minute stays empty and minutes 3 to 5, the fourth
  consecutive missing minute included, take the later value 20; the earlier value 10 is
  carried nowhere.
\<close>

theorem backfill_forward_counterexample:
  "resample_backfill 3 [co_reading 1 ''ff1'' 10, co_reading 6 ''ff1'' 20] =
     Inr [co_reading 1 ''ff1'' 10, nan_row 2, co_reading 3 ''ff1'' 20, co_reading 4 ''ff1'' 20,
          co_reading 5 ''ff1'' 20, co_reading 6 ''ff1'' 20]"
  by (simp add: model_defs)

section \<open>The resampled frame and the sanity check of the window loop\<close>

lemma set_map_filter: "set (List.map_filter f xs) = {y. \<exists>x \<in> set xs. f x = Some y}"
  by (induction xs) (auto split: option.splits)

lemma group_ids_iff: "e \<in> set (group_ids rows) \<longleftrightarrow> (\<exists>r \<in> set rows. firefighter_id r = Some e)"
  by (auto simp: group_ids_def set_map_filter)

lemma group_rows_nonempty: "e \<in> set (group_ids rows) \<Longrightarrow> group_rows e rows \<noteq> []"
  by (auto simp: group_ids_iff group_rows_def filter_empty_conv)

lemma distinct_group_ids: "distinct (group_ids rows)"
  by (simp add: group_ids_def)

lemma resample_groups_Inr:
  assumes "resample_groups es rows = Inr out" and "\<forall>e \<in> set es. group_rows e rows \<noteq> []"
  shows "out = concat (map (group_grid rows) es) \<and>
         (\<forall>e \<in> set es. distinct (map timestamp_mins (group_rows e rows)))"
  using assms
proof (induction es arbitrary: out)
  case Nil
  then show ?case by simp
next
  case (Cons e es)
  from Cons.prems(1) obtain xs ys where
    x: "resample_backfill 3 (group_rows e rows) = Inr xs"
    and y: "resample_groups es rows = Inr ys" and out: "out = xs @ ys"
    by (auto split: sum.splits)
  from Cons.prems(2) have ne: "group_rows e rows \<noteq> []" by simp
  with x have "xs = group_grid rows e" and "distinct (map timestamp_mins (group_rows e rows))"
    by (auto simp: resample_backfill_def group_grid_def split: if_splits)
  moreover from Cons.IH [OF y] Cons.prems(2)
  have "ys = concat (map (group_grid rows) es)"
    "\<forall>e \<in> set es. distinct (map timestamp_mins (group_rows e rows))" by auto
  ultimately show ?case using out by simp
qed

lemma backfill_at_timestamp: "timestamp_mins (backfill_at l obs k) = k"
  by (simp add: backfill_at_def nan_row_def split: option.splits)

lemma backfill_at_id:
  "firefighter_id (backfill_at l obs k) = None \<or>
   firefighter_id (backfill_at l obs k) \<in> firefighter_id ` set obs"
  by (auto simp: backfill_at_def nan_row_def split: option.splits dest: find_Some_iff[THEN iffD1]
      simp: find_Some_iff)

lemma group_grid_timestamps:
  "map timestamp_mins (group_grid rows e) =
     [timestamp_mins (hd (group_rows e rows)) .. timestamp_mins (last (group_rows e rows))]"
proof -
  have "map timestamp_mins (group_grid rows e) =
          map (\<lambda>k. k) [timestamp_mins (hd (group_rows e rows)) .. timestamp_mins (last (group_rows e rows))]"
    unfolding group_grid_def by (simp add: backfill_at_timestamp comp_def)
  then show ?thesis by simp
qed

lemma group_grid_id:
  assumes "r \<in> set (group_grid rows e)"
  shows "firefighter_id r = None \<or> firefighter_id r = Some e"
proof -
  from assms obtain k where r: "r = backfill_at 3 (group_rows e rows) k"
    by (auto simp: group_grid_def)
  have "firefighter_id ` set (group_rows e rows) \<subseteq> {Some e}"
    by (auto simp: group_rows_def)
  with backfill_at_id [of 3 "group_rows e rows" k] show ?thesis unfolding r by auto
qed

lemma group_grid_last:
  assumes "sorted (map timestamp_mins rows)" and "group_rows e rows \<noteq> []"
    and "distinct (map timestamp_mins (group_rows e rows))"
  shows "last (group_rows e rows) \<in> set (group_grid rows e)"
proof -
  let ?obs = "group_rows e rows"
  let ?x = "last ?obs"
  have s: "sorted (map timestamp_mins ?obs)"
    unfolding group_rows_def using assms(1) by (rule sorted_filter)
  have x: "?x \<in> set ?obs" using assms(2) by simp
  have le: "\<forall>y \<in> set ?obs. timestamp_mins ?x \<le> timestamp_mins y \<longrightarrow> timestamp_mins ?x \<le> timestamp_mins y"
    by simp
  have "backfill_at 3 ?obs (timestamp_mins ?x) =
          (if timestamp_mins ?x - timestamp_mins ?x \<le> 3 then ?x\<lparr>timestamp_mins := timestamp_mins ?x\<rparr>
           else nan_row (timestamp_mins ?x))"
    by (rule backfill_at_next [OF s assms(3) x _ le]) simp
  then have b: "backfill_at 3 ?obs (timestamp_mins ?x) = ?x" by simp
  have "timestamp_mins (hd ?obs) \<le> timestamp_mins ?x"
    using sorted_hd_le [OF s x] .
  then have "timestamp_mins ?x \<in> set [timestamp_mins (hd ?obs) .. timestamp_mins ?x]" by simp
  then have "backfill_at 3 ?obs (timestamp_mins ?x) \<in> set (group_grid rows e)"
    unfolding group_grid_def set_map by (rule imageI)
  with b show ?thesis by simp
qed

lemma filter_concat_one:
  assumes "distinct es" and "\<forall>e' \<in> set es. e' \<noteq> e \<longrightarrow> filter P (G e') = []"
  shows "filter P (concat (map G es)) = (if e \<in> set es then filter P (G e) else [])"
  using assms by (induction es) auto

lemma clean_rows:
  assumes "clean df = Inr cleaned"
  shows "cleaned = concat (map (group_grid (sort_key timestamp_mins df))
                     (group_ids (sort_key timestamp_mins df))) \<and>
         (\<forall>e \<in> set (group_ids (sort_key timestamp_mins df)).
            group_rows e (sort_key timestamp_mins df) \<noteq> [] \<and>
            distinct (map timestamp_mins (group_rows e (sort_key timestamp_mins df))))"
proof -
  let ?s = "sort_key timestamp_mins df"
  from assms have r: "resample_groups (group_ids ?s) ?s = Inr cleaned"
    by (simp add: clean_def Let_def)
  have ne: "\<forall>e \<in> set (group_ids ?s). group_rows e ?s \<noteq> []"
    using group_rows_nonempty by blast
  from resample_groups_Inr [OF r ne] ne show ?thesis by blast
qed

lemma clean_distinct_minutes:
  assumes "clean df = Inr cleaned"
  shows "distinct (map timestamp_mins (group_rows e cleaned))"
proof -
  let ?s = "sort_key timestamp_mins df"
  let ?P = "\<lambda>r. firefighter_id r = Some e"
  from clean_rows [OF assms] have c: "cleaned = concat (map (group_grid ?s) (group_ids ?s))"
    by blast
  have other: "\<forall>e' \<in> set (group_ids ?s). e' \<noteq> e \<longrightarrow> filter ?P (group_grid ?s e') = []"
    using group_grid_id by (fastforce simp: filter_empty_conv)
  have g: "group_rows e cleaned =
             (if e \<in> set (group_ids ?s) then filter ?P (group_grid ?s e) else [])"
    unfolding group_rows_def c
    by (rule filter_concat_one [OF distinct_group_ids other])
  have "distinct (map timestamp_mins (group_grid ?s e))"
    by (simp add: group_grid_timestamps)
  then have "distinct (map timestamp_mins (filter ?P (group_grid ?s e)))"
    by (rule distinct_map_filter)
  with g show ?thesis by simp
qed

lemma clean_reading_after:
  assumes "clean df = Inr cleaned" and "\<forall>r \<in> set df. timestamp_mins r * ns_per_min \<le> t"
    and "r \<in> set cleaned"
  shows "\<exists>x \<in> set cleaned. firefighter_id x \<noteq> None \<and> timestamp_mins r \<le> timestamp_mins x \<and>
           timestamp_mins x * ns_per_min \<le> t"
proof -
  let ?s = "sort_key timestamp_mins df"
  from clean_rows [OF assms(1)] have c: "cleaned = concat (map (group_grid ?s) (group_ids ?s))"
    and g: "\<forall>e \<in> set (group_ids ?s). group_rows e ?s \<noteq> [] \<and>
              distinct (map timestamp_mins (group_rows e ?s))"
    by blast+
  from assms(3) c obtain e where e: "e \<in> set (group_ids ?s)" and r: "r \<in> set (group_grid ?s e)"
    by auto
  let ?x = "last (group_rows e ?s)"
  from g e have ne: "group_rows e ?s \<noteq> []" and d: "distinct (map timestamp_mins (group_rows e ?s))"
    by auto
  have srt: "sorted (map timestamp_mins ?s)" by (rule sorted_sort_key)
  have xg: "?x \<in> set (group_grid ?s e)" by (rule group_grid_last [OF srt ne d])
  with e c have xc: "?x \<in> set cleaned" by auto
  from ne have xo: "?x \<in> set (group_rows e ?s)" by simp
  then have id: "firefighter_id ?x = Some e" and xdf: "?x \<in> set df"
    by (auto simp: group_rows_def)
  from r have "timestamp_mins r \<in> set (map timestamp_mins (group_grid ?s e))" by simp
  then have le: "timestamp_mins r \<le> timestamp_mins ?x"
    unfolding group_grid_timestamps by simp
  from xdf assms(2) have "timestamp_mins ?x * ns_per_min \<le> t" by blast
  with xc id le show ?thesis by auto
qed

lemma slice_minutes:
  assumes "a - w * ns_per_min + ns_per_min \<le> m * ns_per_min" and "m * ns_per_min \<le> a"
  shows "m \<in> {a div ns_per_min - w + 1 .. a div ns_per_min}"
proof -
  have pos: "0 < ns_per_min" by (simp add: ns_per_min_def)
  from assms(2) have "(m * ns_per_min) div ns_per_min \<le> a div ns_per_min"
    using pos by (intro zdiv_mono1) simp_all
  then have up: "m \<le> a div ns_per_min" using pos by simp
  from assms(1) have "a \<le> (m + w - 1) * ns_per_min" by (simp add: algebra_simps)
  then have "a div ns_per_min \<le> ((m + w - 1) * ns_per_min) div ns_per_min"
    using pos by (intro zdiv_mono1) simp_all
  then have "a div ns_per_min \<le> m + w - 1" using pos by simp
  with up show ?thesis by simp
qed

lemma slice_group_size:
  assumes "distinct (map timestamp_mins (group_rows e cleaned))" and "0 \<le> w"
  shows "int (length (group_rows e (slice_rows (t - w * ns_per_min + ns_per_min) t cleaned))) \<le> w"
proof -
  let ?Q = "\<lambda>r. t - w * ns_per_min + ns_per_min \<le> timestamp_mins r * ns_per_min \<and>
                 timestamp_mins r * ns_per_min \<le> t"
  let ?ys = "filter ?Q (group_rows e cleaned)"
  have eq: "group_rows e (slice_rows (t - w * ns_per_min + ns_per_min) t cleaned) = ?ys"
    by (auto simp: group_rows_def slice_rows_def intro: filter_cong)
  from assms(1) have d: "distinct (map timestamp_mins ?ys)" by (rule distinct_map_filter)
  have sub: "set (map timestamp_mins ?ys) \<subseteq> {t div ns_per_min - w + 1 .. t div ns_per_min}"
    using slice_minutes by auto
  have "length ?ys = length (map timestamp_mins ?ys)" by simp
  also have "\<dots> = card (set (map timestamp_mins ?ys))"
    using d by (simp only: distinct_card)
  also have "\<dots> \<le> card {t div ns_per_min - w + 1 .. t div ns_per_min}"
    using sub by (intro card_mono) simp_all
  also have "\<dots> = nat w" by simp
  finally have "length ?ys \<le> nat w" .
  with assms(2) show ?thesis unfolding eq by simp
qed

lemma slice_nonempty_mins:
  assumes "slice_rows (t - w * ns_per_min + ns_per_min) t cleaned \<noteq> []"
  shows "1 \<le> w"
proof -
  from assms have "\<exists>m. t - w * ns_per_min + ns_per_min \<le> m * ns_per_min \<and>
    m * ns_per_min \<le> t"
    by (auto simp: slice_rows_def filter_empty_conv)
  then obtain m where "t - w * ns_per_min + ns_per_min \<le> m * ns_per_min" "m * ns_per_min \<le> t"
    by blast
  from slice_minutes [OF this] show ?thesis by simp
qed

lemma getitem_error: "getitem d k = Inl e \<Longrightarrow> e = KeyError"
  by (auto simp: getitem_def split: option.splits)

lemma limits_in_column_order_error: "limits_in_column_order w gs = Inl e \<Longrightarrow> e = KeyError"
  by (induction gs arbitrary: e) (auto split: sum.splits dest: getitem_error)

lemma gauge_row_error: "gauge_row ts ls = Inl e \<Longrightarrow> e = ValueError"
proof (induction ts ls arbitrary: e rule: gauge_row.induct)
  case (1 g t ts l ls)
  then show ?case by (auto simp: gauge_def split: sum.splits if_splits)
qed simp_all

lemma window_rows_error:
  "window_rows c w decimals ck limits window_df ids = Inl e \<Longrightarrow> e = ValueError"
  by (induction ids arbitrary: e) (auto simp: Let_def split: sum.splits dest: gauge_row_error)

lemma py_max_error: "py_max xs = Inl e \<Longrightarrow> e = ValueError \<and> xs = []"
  by (cases xs) auto

lemma py_max_member: "py_max xs = Inr m \<Longrightarrow> m \<in> set xs"
proof (cases xs)
  case Nil
  assume "py_max xs = Inr m" with Nil show ?thesis by simp
next
  case (Cons a as)
  assume "py_max xs = Inr m"
  with Cons have "m = fold max as a" by simp
  then have "m = Max (set (a # as))" by (simp only: Max.set_eq_fold)
  then have "m \<in> set (a # as)" using Max_in [of "set (a # as)"] by simp
  with Cons show ?thesis by simp
qed

lemma resample_groups_error: "resample_groups es rows = Inl e \<Longrightarrow> e = ValueError"
  by (induction es arbitrary: e)
     (auto simp: resample_backfill_def split: sum.splits if_splits)

lemma clean_error: "clean df = Inl e \<Longrightarrow> e = ValueError"
  by (auto simp: clean_def Let_def dest: resample_groups_error)

lemma concat_columns_error: "concat_columns c latest frames = Inl e \<Longrightarrow> e = ValueError"
  by (auto simp: concat_columns_def Let_def split: if_splits)

lemma add_status_error: "add_status c everything = Inl e \<Longrightarrow> e = ValueError"
  by (auto simp: add_status_def status_column_def cut_def Let_def split: sum.splits if_splits)

lemma calculations_error:
  "calculations_for_all_windows c cleaned t ck ws = Inl e \<Longrightarrow>
     \<exists>w \<in> set ws. window_calc c cleaned t ck w = Inl e"
  by (induction ws arbitrary: e) (auto split: sum.splits)

lemma window_calc_no_assertion:
  assumes "clean df = Inr cleaned" and "\<forall>r \<in> set df. timestamp_mins r * ns_per_min \<le> t"
  shows "window_calc c cleaned t ck w \<noteq> Inl (AssertionError issues)"
proof
  assume a: "window_calc c cleaned t ck w = Inl (AssertionError issues)"
  let ?S = "slice_rows (t - mins w * ns_per_min + ns_per_min) t cleaned"
  let ?sizes = "map (\<lambda>e. int (length (group_rows e ?S))) (group_ids ?S)"
  from a have ne: "?S \<noteq> []"
    by (auto simp: window_calc_def Let_def split: if_splits)
  then obtain r where r: "r \<in> set ?S" by (cases ?S) auto
  then have rc: "r \<in> set cleaned"
    and lo: "t - mins w * ns_per_min + ns_per_min \<le> timestamp_mins r * ns_per_min"
    by (auto simp: slice_rows_def)
  from clean_reading_after [OF assms rc] obtain x where
    x: "x \<in> set cleaned" "firefighter_id x \<noteq> None" "timestamp_mins r \<le> timestamp_mins x"
       "timestamp_mins x * ns_per_min \<le> t"
    by blast
  have "timestamp_mins r * ns_per_min \<le> timestamp_mins x * ns_per_min"
    using x(3) by (simp add: ns_per_min_def)
  with lo x(1,4) have "x \<in> set ?S" by (simp add: slice_rows_def)
  with x(2) have ids: "group_ids ?S \<noteq> []"
    using group_ids_iff [of _ ?S] by (metis empty_iff empty_set not_None_eq)
  have w: "0 \<le> mins w" using slice_nonempty_mins [OF ne] by simp
  have bound: "\<forall>s \<in> set ?sizes. s \<le> mins w"
    using slice_group_size [OF clean_distinct_minutes [OF assms(1)] w] by auto
  show False
  proof (cases "py_max ?sizes")
    case (Inl e)
    with py_max_error [OF Inl] ids show False by simp
  next
    case (Inr largest)
    from py_max_member [OF Inr] bound have le: "largest \<le> mins w" by blast
    from a ne Inr le show False
      by (auto simp: window_calc_def Let_def split: json_number.splits sum.splits
            dest: limits_in_column_order_error window_rows_error)
  qed
qed

lemma calculate_no_assertion:
  "calculate_TWA_and_gauge_for_all_firefighters c df t \<noteq> Inl (AssertionError issues)"
proof
  assume a: "calculate_TWA_and_gauge_for_all_firefighters c df t = Inl (AssertionError issues)"
  let ?ws = "sort_key (\<lambda>w. - mins w) (WINDOWS_AND_LIMITS c)"
  from a obtain w0 rest where ws: "?ws = w0 # rest"
    by (cases ?ws) (auto simp: calculate_TWA_and_gauge_for_all_firefighters_def Let_def)
  let ?df = "slice_rows (t - mins w0 * ns_per_min + ns_per_min) t df"
  have b: "\<forall>r \<in> set ?df. timestamp_mins r * ns_per_min \<le> t"
    by (simp add: slice_rows_def)
  show False
  proof (cases "clean ?df")
    case (Inl e)
    with a ws clean_error [OF Inl] show False
      by (simp add: calculate_TWA_and_gauge_for_all_firefighters_def Let_def)
  next
    case (Inr cleaned)
    let ?ck = "floor_min (t - ns_per_min)"
    show False
    proof (cases "calculations_for_all_windows c cleaned t ?ck ?ws")
      case (Inl e)
      with a ws Inr have "e = AssertionError issues"
        by (simp add: calculate_TWA_and_gauge_for_all_firefighters_def Let_def)
      with calculations_error [OF Inl] window_calc_no_assertion [OF Inr b]
      show False by blast
    next
      case frames: (Inr frames)
      from a ws Inr frames show False
        by (auto simp: calculate_TWA_and_gauge_for_all_firefighters_def Let_def
              split: sum.splits dest: concat_columns_error add_status_error)
    qed
  qed
qed

lemma window_calc_oversize:
  assumes "e \<in> set (group_ids (slice_rows (t - mins w * ns_per_min + ns_per_min) t frame))"
    and "mins w < int (length (group_rows e (slice_rows (t - mins w * ns_per_min + ns_per_min) t frame)))"
  shows "window_calc c frame t ck w = Inl (AssertionError [])"
proof -
  let ?S = "slice_rows (t - mins w * ns_per_min + ns_per_min) t frame"
  let ?sizes = "map (\<lambda>e. int (length (group_rows e ?S))) (group_ids ?S)"
  from assms(1) have ne: "?S \<noteq> []" by (auto simp: group_ids_iff)
  from assms(1) have mem: "int (length (group_rows e ?S)) \<in> set ?sizes" by simp
  show ?thesis
  proof (cases "py_max ?sizes")
    case (Inl err)
    with ne show ?thesis by (simp add: window_calc_def Let_def)
  next
    case (Inr largest)
    from mem obtain a as where c: "?sizes = a # as" by (cases ?sizes) auto
    with Inr have "largest = fold max as a" by simp
    then have "largest = Max (set ?sizes)" unfolding c by (simp only: Max.set_eq_fold)
    with mem have "int (length (group_rows e ?S)) \<le> largest" by simp
    with assms(2) have "\<not> largest \<le> mins w" by simp
    with ne Inr show ?thesis by (simp add: window_calc_def Let_def)
  qed
qed

lemma run_analytics_no_assertion:
  "fst (run_analytics c sensor_log analytics_table time commit) \<noteq> Inl (AssertionError issues)"
  using calculate_no_assertion
  by (auto simp: run_analytics_def get_block_of_sensor_readings_def Let_def
        split: sum.splits dest: py_max_error)


text \<open>
  Claim C6. In a resampled frame a firefighter has at most one row per minute, so the
  rows it contributes to a window's slice never outnumber the window's minutes. The
  sanity check aborts with an assertion failure, instead of computing, on any frame in
  which some firefighter has more rows in the slice than the window has minutes. On the
  frames the tick really builds the check never fails: no call of \<open>run_analytics\<close>
  ends in an assertion failure, whatever the sensor log holds (a repeated minute of one
  firefighter already makes the resampling raise ValueError).
\<close>

theorem window_sample_count_bounded:
  "(clean df = Inr cleaned \<and> 0 \<le> mins w \<longrightarrow>
      int (length (group_rows e (slice_rows (t - mins w * ns_per_min + ns_per_min) t cleaned)))
        \<le> mins w) \<and>
   fst (run_analytics c sensor_log analytics_table time commit) \<noteq> Inl (AssertionError issues) \<and>
   (e \<in> set (group_ids (slice_rows (t - mins w * ns_per_min + ns_per_min) t frame)) \<and>
    mins w < int (length (group_rows e (slice_rows (t - mins w * ns_per_min + ns_per_min) t frame)))
      \<longrightarrow> window_calc c frame t ck w = Inl (AssertionError []))"
  using slice_group_size [OF clean_distinct_minutes] run_analytics_no_assertion window_calc_oversize
  by blast

theorem window_sample_count_bounded_witness:
  "clean jump_readings = Inr jump_readings \<and> 0 \<le> mins example_window \<and>
   int (length (group_rows ''ff1''
          (slice_rows (10 * ns_per_min - mins example_window * ns_per_min + ns_per_min)
             (10 * ns_per_min) jump_readings))) \<le> mins example_window \<and>
   fst (run_analytics example_config jump_readings [] (10 * ns_per_min) False)
     \<noteq> Inl (AssertionError []) \<and>
   ''ff1'' \<in> set (group_ids
          (slice_rows (10 * ns_per_min - mins example_window * ns_per_min + ns_per_min)
             (10 * ns_per_min) repeated_minute_frame)) \<and>
   mins example_window < int (length (group_rows ''ff1''
          (slice_rows (10 * ns_per_min - mins example_window * ns_per_min + ns_per_min)
             (10 * ns_per_min) repeated_minute_frame))) \<and>
   window_calc example_config repeated_minute_frame (10 * ns_per_min) 9 example_window
     = Inl (AssertionError [])"
proof -
  have h1: "clean jump_readings = Inr jump_readings"
    by (simp add: jump_readings_def model_defs)
  have h2: "0 \<le> mins example_window" by (simp add: example_window_def)
  have h3: "''ff1'' \<in> set (group_ids
          (slice_rows (10 * ns_per_min - mins example_window * ns_per_min + ns_per_min)
             (10 * ns_per_min) repeated_minute_frame))"
    by (simp add: repeated_minute_frame_def jump_readings_def model_defs)
  have h4: "mins example_window < int (length (group_rows ''ff1''
          (slice_rows (10 * ns_per_min - mins example_window * ns_per_min + ns_per_min)
             (10 * ns_per_min) repeated_minute_frame)))"
    by (simp add: repeated_minute_frame_def jump_readings_def model_defs)
  from window_sample_count_bounded [where df = jump_readings and cleaned = jump_readings
      and w = example_window and e = "''ff1''" and t = "10 * ns_per_min"
      and c = example_config and sensor_log = jump_readings and analytics_table = "[]"
      and time = "10 * ns_per_min" and commit = False and issues = "[]"
      and frame = repeated_minute_frame and ck = 9]
    h1 h2 h3 h4
  show ?thesis by blast
qed

section \<open>Gauges\<close>



lemma window_calc_SomeD:
  assumes "window_calc c cleaned t ck w = Inr (Some f)"
  shows "\<exists>decimals limits.
           slice_rows (t - mins w * ns_per_min + ns_per_min) t cleaned \<noteq> [] \<and>
           SAFE_ROUNDING_FACTOR c = JInt decimals \<and>
           limits_in_column_order w (SUPPORTED_GASES c) = Inr limits \<and>
           window_rows c w decimals ck limits
             (slice_rows (t - mins w * ns_per_min + ns_per_min) t cleaned)
             (group_ids (slice_rows (t - mins w * ns_per_min + ns_per_min) t cleaned))
             = Inr (wf_rows f) \<and>
           wf_label f = label w"
  using assms unfolding window_calc_def Let_def
  by (auto split: if_splits sum.splits json_number.splits)

lemma window_rows_D:
  assumes "window_rows c w decimals ck limits window_df ids = Inr rows"
  shows "map wr_firefighter_id rows = ids \<and>
         (\<forall>row \<in> set rows. wr_timestamp_mins row = ck \<and>
            wr_twa row = twa_row c w decimals window_df (wr_firefighter_id row) \<and>
            gauge_row (wr_twa row) limits = Inr (wr_gauge row))"
  using assms
proof (induction ids arbitrary: rows)
  case Nil
  then show ?case by simp
next
  case (Cons e es)
  from Cons.prems obtain gs rest where
    g: "gauge_row (twa_row c w decimals window_df e) limits = Inr gs"
    and r: "window_rows c w decimals ck limits window_df es = Inr rest"
    and rows: "rows = \<lparr>wr_firefighter_id = e, wr_timestamp_mins = ck,
                        wr_twa = twa_row c w decimals window_df e, wr_gauge = gs\<rparr> # rest"
    by (auto simp: Let_def split: sum.splits)
  from Cons.IH [OF r] g show ?case unfolding rows by auto
qed






section \<open>The entry point\<close>

text \<open>
  Claim C7. When the block read for a tick is empty, \<open>run_analytics\<close> returns nothing
  (Python's \<open>None\<close>: no record), raises no error and leaves the analytics table as it
  was, whatever the \<open>commit\<close> flag.
\<close>

theorem empty_block_returns_nothing:
  assumes "get_block_of_sensor_readings c sensor_log time = Inr []"
  shows "run_analytics c sensor_log analytics_table time commit = (Inr None, analytics_table)"
  using assms by (simp add: run_analytics_def)

theorem empty_block_returns_nothing_witness:
  "get_block_of_sensor_readings example_config [co_reading 3 ''ff1'' 50] (100 * ns_per_min) = Inr [] \<and>
   run_analytics example_config [co_reading 3 ''ff1'' 50] [] (100 * ns_per_min) True = (Inr None, [])"
proof -
  have h: "get_block_of_sensor_readings example_config [co_reading 3 ''ff1'' 50] (100 * ns_per_min) = Inr []"
    by (simp add: get_block_of_sensor_readings_def model_defs)
  from empty_block_returns_nothing [OF h] h show ?thesis by simp
qed

text \<open>
  Claim C9 on the code. The default of \<open>time\<close> is the clock reading at which the
  \<open>def\<close> statement ran: a call that omits \<open>time\<close> runs the analytics for that
  instant, whatever the clock reads when the call is made, so two such calls at
  different moments use the same instant.
\<close>

theorem omitted_time_is_definition_time:
  "call_run_analytics (define_run_analytics t0) now c sensor_log analytics_table None commit =
     run_analytics c sensor_log analytics_table t0 commit"
  by (simp add: call_run_analytics_def define_run_analytics_def bound_time_def)

section \<open>Time-weighted averages\<close>







section \<open>Windows without samples\<close>

lemma frame_row_None:
  assumes "e \<notin> wr_firefighter_id ` set (wf_rows f)"
  shows "frame_row f (Some e, k) = None"
  using assms by (auto simp: frame_row_def find_None_iff)

lemma frame_row_Some:
  assumes "e \<in> wr_firefighter_id ` set (wf_rows f)"
    and "\<forall>row \<in> set (wf_rows f). wr_timestamp_mins row = ck"
  shows "\<exists>row. frame_row f (Some e, ck) = Some row"
proof (cases "frame_row f (Some e, ck)")
  case None
  with assms show ?thesis by (auto simp: frame_row_def find_None_iff)
qed simp

text \<open>
  Claim C8. The frame of a window has a row for a firefighter exactly when the
  firefighter has at least one row in the window's slice of the resampled frame. Without
  such a row the window's TWA and gauge cells of the firefighter's output row are all
  empty (\<open>None\<close>) and not zero; with one, every cell holds a value (\<open>Some\<close>, also
  when the value is 0). The TWA and gauge cells of an output row are the concatenation of
  \<open>twa_cells\<close> and \<open>gauge_cells\<close> over the frames.
\<close>

theorem window_without_samples_has_no_row:
  assumes "window_calc c cleaned t ck w = Inr (Some f)"
  shows "(e \<in> wr_firefighter_id ` set (wf_rows f) \<longleftrightarrow>
            (\<exists>r \<in> set cleaned. timestamp_mins r \<in> slice_minutes_of t (mins w) \<and>
                                firefighter_id r = Some e)) \<and>
         (e \<notin> wr_firefighter_id ` set (wf_rows f) \<longrightarrow>
            (\<forall>k. twa_cells c (Some e, k) f = map (\<lambda>g. ((g, wf_label f), None)) (SUPPORTED_GASES c) \<and>
                 gauge_cells c (Some e, k) f = map (\<lambda>g. ((g, wf_label f), None)) (SUPPORTED_GASES c))) \<and>
         (e \<in> wr_firefighter_id ` set (wf_rows f) \<longrightarrow>
            (\<forall>cell \<in> set (twa_cells c (Some e, ck) f). snd cell \<noteq> None) \<and>
            (\<forall>cell \<in> set (gauge_cells c (Some e, ck) f). snd cell \<noteq> None))"
proof -
  let ?S = "slice_rows (t - mins w * ns_per_min + ns_per_min) t cleaned"
  from window_calc_SomeD [OF assms] obtain decimals limits where
    rows: "window_rows c w decimals ck limits ?S (group_ids ?S) = Inr (wf_rows f)"
    by blast
  from window_rows_D [OF rows] have
    ids: "map wr_firefighter_id (wf_rows f) = group_ids ?S"
    and ts: "\<forall>row \<in> set (wf_rows f). wr_timestamp_mins row = ck"
    by auto
  have "wr_firefighter_id ` set (wf_rows f) = set (group_ids ?S)"
    using ids by (metis set_map)
  then have a: "e \<in> wr_firefighter_id ` set (wf_rows f) \<longleftrightarrow>
            (\<exists>r \<in> set cleaned. timestamp_mins r \<in> slice_minutes_of t (mins w) \<and>
                                firefighter_id r = Some e)"
    by (auto simp: group_ids_iff slice_rows_def slice_minutes_of_def)
  have b: "twa_cells c (Some e, k) f = map (\<lambda>g. ((g, wf_label f), None)) (SUPPORTED_GASES c) \<and>
           gauge_cells c (Some e, k) f = map (\<lambda>g. ((g, wf_label f), None)) (SUPPORTED_GASES c)"
    if "e \<notin> wr_firefighter_id ` set (wf_rows f)" for k
    using frame_row_None [OF that] by (simp add: twa_cells_def gauge_cells_def)
  have c: "(\<forall>cell \<in> set (twa_cells c (Some e, ck) f). snd cell \<noteq> None) \<and>
           (\<forall>cell \<in> set (gauge_cells c (Some e, ck) f). snd cell \<noteq> None)"
    if "e \<in> wr_firefighter_id ` set (wf_rows f)"
  proof -
    from frame_row_Some [OF that ts] obtain row where "frame_row f (Some e, ck) = Some row"
      by blast
    then show ?thesis by (auto simp: twa_cells_def gauge_cells_def)
  qed
  from a b c show ?thesis by blast
qed

theorem window_without_samples_has_no_row_witness:
  "window_calc example_config two_firefighters_frame (10 * ns_per_min) 9 example_window =
     Inr (Some \<lparr>wf_label = ''10min'',
                wf_rows = [\<lparr>wr_firefighter_id = ''ff1'', wr_timestamp_mins = 9,
                            wr_twa = [(''carbon_monoxide'', 110)],
                            wr_gauge = [(''carbon_monoxide'', 110)]\<rparr>]\<rparr>) \<and>
   \<not> (\<exists>r \<in> set two_firefighters_frame.
         timestamp_mins r \<in> slice_minutes_of (10 * ns_per_min) (mins example_window) \<and>
         firefighter_id r = Some ''ff2'') \<and>
   ''ff2'' \<notin> wr_firefighter_id ` set [\<lparr>wr_firefighter_id = ''ff1'', wr_timestamp_mins = 9,
                            wr_twa = [(''carbon_monoxide'', 110)],
                            wr_gauge = [(''carbon_monoxide'', 110)]\<rparr>] \<and>
   twa_cells example_config (Some ''ff2'', 9)
     \<lparr>wf_label = ''10min'',
      wf_rows = [\<lparr>wr_firefighter_id = ''ff1'', wr_timestamp_mins = 9,
                  wr_twa = [(''carbon_monoxide'', 110)],
                  wr_gauge = [(''carbon_monoxide'', 110)]\<rparr>]\<rparr>
     = [((''carbon_monoxide'', ''10min''), None)]"
proof -
  let ?row = "\<lparr>wr_firefighter_id = ''ff1'', wr_timestamp_mins = 9,
               wr_twa = [(''carbon_monoxide'', 110 :: rat)],
               wr_gauge = [(''carbon_monoxide'', 110 :: int)]\<rparr>"
  let ?f = "\<lparr>wf_label = ''10min'', wf_rows = [?row]\<rparr>"
  have h: "window_calc example_config two_firefighters_frame (10 * ns_per_min) 9 example_window =
             Inr (Some ?f)"
    by (simp add: two_firefighters_frame_def sparse_readings_def model_defs)
  have n: "\<not> (\<exists>r \<in> set two_firefighters_frame.
         timestamp_mins r \<in> slice_minutes_of (10 * ns_per_min) (mins example_window) \<and>
         firefighter_id r = Some ''ff2'')"
    by (simp add: two_firefighters_frame_def sparse_readings_def co_reading_def
          slice_minutes_of_def example_window_def ns_per_min_def)
  from window_without_samples_has_no_row [OF h, of "''ff2''"] n
  have a: "''ff2'' \<notin> wr_firefighter_id ` set (wf_rows ?f)"
    and b: "\<forall>k. twa_cells example_config (Some ''ff2'', k) ?f =
              map (\<lambda>g. ((g, wf_label ?f), None)) (SUPPORTED_GASES example_config)"
    by blast+
  from b have "twa_cells example_config (Some ''ff2'', 9) ?f = [((''carbon_monoxide'', ''10min''), None)]"
    by (simp add: example_config_def)
  with h n a show ?thesis by simp
qed

section \<open>Keys of the output rows\<close>

lemma find_filter: "find P (filter Q xs) = find (\<lambda>x. Q x \<and> P x) xs"
  by (induction xs) auto

lemma floor_min_minus_minute: "floor_min (t - ns_per_min) = floor_min t - 1"
proof -
  have "ns_per_min \<noteq> 0" by (simp add: ns_per_min_def)
  from div_mult_self1 [OF this, of t "- 1"]
  have "(t - ns_per_min) div ns_per_min = t div ns_per_min - 1" by simp
  then show ?thesis by (simp add: floor_min_def)
qed

lemma add_status_rows:
  assumes "add_status c everything = Inr out" and "r \<in> set out"
  shows "\<exists>r0 \<in> set everything. \<exists>s. r = r0\<lparr>analytics_status_LED := s\<rparr>"
proof -
  from assms(1) obtain ss where
    "out = map (\<lambda>(r, s). r\<lparr>analytics_status_LED := s\<rparr>) (zip everything ss)"
    by (auto simp: add_status_def split: sum.splits)
  with assms(2) obtain r0 s where z: "(r0, s) \<in> set (zip everything ss)"
    and r: "r = r0\<lparr>analytics_status_LED := s\<rparr>" by auto
  from z have "r0 \<in> set everything" by (rule set_zip_leftD)
  with r show ?thesis by blast
qed

lemma calculations_frames:
  assumes "calculations_for_all_windows c cleaned t ck ws = Inr frames" and "f \<in> set frames"
  shows "\<exists>w \<in> set ws. window_calc c cleaned t ck w = Inr (Some f)"
  using assms
proof (induction ws arbitrary: frames)
  case Nil
  then show ?case by simp
next
  case (Cons w ws)
  from Cons.prems(1) obtain res rest where
    r: "window_calc c cleaned t ck w = Inr res"
    and rest: "calculations_for_all_windows c cleaned t ck ws = Inr rest"
    and fr: "frames = (case res of None \<Rightarrow> rest | Some f \<Rightarrow> f # rest)"
    by (auto split: sum.splits)
  show ?case
  proof (cases "f \<in> set rest")
    case True
    from Cons.IH [OF rest True] show ?thesis by auto
  next
    case False
    with Cons.prems(2) fr have "res = Some f" by (cases res) auto
    with r show ?thesis by simp
  qed
qed

lemma concat_columns_rows:
  assumes "concat_columns c latest frames = Inr everything" and "r \<in> set everything"
  shows "((ar_firefighter_id r, ar_timestamp_mins r) \<in> reading_key ` set latest \<or>
          (\<exists>f \<in> set frames. (ar_firefighter_id r, ar_timestamp_mins r) \<in> window_row_key ` set (wf_rows f))) \<and>
         ar_cells r = (case find (\<lambda>x. reading_key x = (ar_firefighter_id r, ar_timestamp_mins r)) latest of
                         None \<Rightarrow> Map.empty | Some x \<Rightarrow> cells x) \<and>
         ar_twa r = concat (map (twa_cells c (ar_firefighter_id r, ar_timestamp_mins r)) frames) \<and>
         ar_gauge r = concat (map (gauge_cells c (ar_firefighter_id r, ar_timestamp_mins r)) frames)"
proof -
  let ?keys = "(if frames = [] then map reading_key latest
               else remdups (map reading_key latest @
                      concat (map (\<lambda>f. map window_row_key (wf_rows f)) frames)))"
  let ?mk = "\<lambda>k. \<lparr>ar_firefighter_id = fst k, ar_timestamp_mins = snd k,
                   ar_cells = (case find (\<lambda>r. reading_key r = k) latest of
                                 None \<Rightarrow> Map.empty | Some r \<Rightarrow> cells r),
                   ar_twa = concat (map (twa_cells c k) frames),
                   ar_gauge = concat (map (gauge_cells c k) frames),
                   analytics_status_LED = None\<rparr>"
  from assms(1) have "everything = map ?mk ?keys"
    by (simp add: concat_columns_def Let_def split: if_splits)
  with assms(2) obtain k where k: "k \<in> set ?keys" and r: "r = ?mk k" by auto
  from k have "k \<in> reading_key ` set latest \<or>
               (\<exists>f \<in> set frames. k \<in> window_row_key ` set (wf_rows f))"
    by (auto split: if_splits)
  then show ?thesis unfolding r by simp
qed

text \<open>
  Claim C10. Every row a tick returns is keyed to the minute before the minute of the
  tick (the tick floored to the minute, minus one), and its carried-through sensor cells
  are those of the firefighter's slot of that minute in the resampled frame (empty when
  the slot does not exist), not those of the tick's own minute.
\<close>

theorem records_keyed_one_minute_before_tick:
  assumes "calculate_TWA_and_gauge_for_all_firefighters c df t = Inr out" and "r \<in> set out"
  shows "ar_timestamp_mins r = floor_min t - 1 \<and>
         (\<exists>cleaned.
            clean (slice_rows (t - mins (hd (sort_key (\<lambda>w. - mins w) (WINDOWS_AND_LIMITS c))) * ns_per_min
                                 + ns_per_min) t df) = Inr cleaned \<and>
            ar_cells r =
              (case find (\<lambda>x. timestamp_mins x = floor_min t - 1 \<and> firefighter_id x = ar_firefighter_id r)
                      cleaned of
                 None \<Rightarrow> Map.empty | Some x \<Rightarrow> cells x))"
proof -
  let ?ws = "sort_key (\<lambda>w. - mins w) (WINDOWS_AND_LIMITS c)"
  let ?ck = "floor_min (t - ns_per_min)"
  let ?df = "slice_rows (t - mins (hd ?ws) * ns_per_min + ns_per_min) t df"
  from assms(1) obtain w0 rest where ws: "?ws = w0 # rest"
    by (cases ?ws) (auto simp: calculate_TWA_and_gauge_for_all_firefighters_def Let_def)
  from assms(1) ws obtain cleaned frames everything where
    cl: "clean ?df = Inr cleaned"
    and fr: "calculations_for_all_windows c cleaned t ?ck ?ws = Inr frames"
    and cc: "concat_columns c (filter (\<lambda>r. timestamp_mins r = ?ck) cleaned) frames = Inr everything"
    and st: "add_status c everything = Inr out"
    by (auto simp: calculate_TWA_and_gauge_for_all_firefighters_def Let_def split: sum.splits)
  let ?latest = "filter (\<lambda>r. timestamp_mins r = ?ck) cleaned"
  from add_status_rows [OF st assms(2)] obtain r0 s where
    r0: "r0 \<in> set everything" and r: "r = r0\<lparr>analytics_status_LED := s\<rparr>" by blast
  from concat_columns_rows [OF cc r0] have
    key: "(ar_firefighter_id r0, ar_timestamp_mins r0) \<in> reading_key ` set ?latest \<or>
          (\<exists>f \<in> set frames. (ar_firefighter_id r0, ar_timestamp_mins r0) \<in> window_row_key ` set (wf_rows f))"
    and cells: "ar_cells r0 = (case find (\<lambda>x. reading_key x = (ar_firefighter_id r0, ar_timestamp_mins r0)) ?latest of
                         None \<Rightarrow> Map.empty | Some x \<Rightarrow> cells x)"
    by blast+
  have ts0: "ar_timestamp_mins r0 = ?ck"
    using key
  proof
    assume "(ar_firefighter_id r0, ar_timestamp_mins r0) \<in> reading_key ` set ?latest"
    then show ?thesis by (auto simp: reading_key_def)
  next
    assume "\<exists>f \<in> set frames. (ar_firefighter_id r0, ar_timestamp_mins r0) \<in> window_row_key ` set (wf_rows f)"
    then obtain f row where f: "f \<in> set frames" and row: "row \<in> set (wf_rows f)"
      and k: "(ar_firefighter_id r0, ar_timestamp_mins r0) = window_row_key row" by auto
    from calculations_frames [OF fr f] obtain w where "window_calc c cleaned t ?ck w = Inr (Some f)"
      by blast
    from window_calc_SomeD [OF this] obtain decimals limits where
      "window_rows c w decimals ?ck limits
         (slice_rows (t - mins w * ns_per_min + ns_per_min) t cleaned)
         (group_ids (slice_rows (t - mins w * ns_per_min + ns_per_min) t cleaned)) = Inr (wf_rows f)"
      by blast
    from window_rows_D [OF this] row have "wr_timestamp_mins row = ?ck" by blast
    with k show ?thesis by (simp add: window_row_key_def)
  qed
  have "ar_cells r0 =
          (case find (\<lambda>x. timestamp_mins x = ?ck \<and> firefighter_id x = ar_firefighter_id r0) cleaned of
             None \<Rightarrow> Map.empty | Some x \<Rightarrow> cells x)"
    unfolding cells find_filter ts0 reading_key_def
    by (rule arg_cong [where f = "\<lambda>z. case z of None \<Rightarrow> Map.empty | Some x \<Rightarrow> cells x"])
       (rule arg_cong2 [where f = find], auto)
  with ts0 cl show ?thesis
    unfolding r by (auto simp: floor_min_minus_minute)
qed

theorem records_keyed_one_minute_before_tick_witness:
  "\<exists>r. calculate_TWA_and_gauge_for_all_firefighters example_config
          (sparse_readings @ [co_reading 10 ''ff1'' 400]) (10 * ns_per_min + 30000000000) = Inr [r] \<and>
        r \<in> set [r] \<and>
        ar_timestamp_mins r = floor_min (10 * ns_per_min + 30000000000) - 1 \<and>
        ar_timestamp_mins r = 9 \<and>
        ar_cells r ''carbon_monoxide'' = Some 500"
proof -
  obtain r where run: "calculate_TWA_and_gauge_for_all_firefighters example_config
          (sparse_readings @ [co_reading 10 ''ff1'' 400]) (10 * ns_per_min + 30000000000) = Inr [r]"
    and k: "ar_timestamp_mins r = 9" and v: "ar_cells r ''carbon_monoxide'' = Some 500"
    by (simp add: sparse_readings_def model_defs)
  have m: "r \<in> set [r]" by simp
  from records_keyed_one_minute_before_tick [OF run m] run m k v show ?thesis by blast
qed

end
